theory Spec2Isabelle
  imports Main
begin

section \<open>JavaScript values read by the application\<close>

text \<open>
  The application (\<^verbatim>\<open>src/server.js\<close>) handles values that come out of \<^verbatim>\<open>JSON.parse\<close>:
  response bodies of the remote API, the stored token, the payload of the identity token.
  A \<open>json\<close> is such a value; \<open>None\<close> of \<open>json option\<close> stands for \<^verbatim>\<open>undefined\<close>.
  \<open>JNum n\<close> is an integer-valued number that JavaScript prints as a plain decimal numeral
  (magnitude below \<open>10^21\<close>); numbers with a fractional part are left out of the model.
  An object is the list of its members, keys distinct as \<^verbatim>\<open>JSON.parse\<close> leaves them.
\<close>

datatype json =
    JNull
  | JBool bool
  | JNum int
  | JStr string
  | JArr "json list"
  | JObj "(string \<times> json) list"

type_synonym jsval = "json option"

text \<open>
  What a \<^verbatim>\<open>throw\<close> or a rejected promise carries: \<open>Error m\<close> is \<^verbatim>\<open>new Error(m)\<close>,
  \<open>TypeError\<close> is the engine's own error for a member read on \<^verbatim>\<open>null\<close> or \<^verbatim>\<open>undefined\<close>
  and for spreading a value that is not iterable (its message depends on the engine and is
  not kept), \<open>Thrown v\<close> is any other value, seen through its JSON members.
\<close>

datatype exn = Error string | TypeError | Thrown json

text \<open>\<^verbatim>\<open>if (v)\<close>, \<^verbatim>\<open>!v\<close>, \<^verbatim>\<open>v || d\<close>: the falsy values are \<^verbatim>\<open>undefined\<close>, \<^verbatim>\<open>null\<close>,
  \<^verbatim>\<open>false\<close>, \<^verbatim>\<open>0\<close> and the empty string.\<close>

fun truthy :: "jsval \<Rightarrow> bool" where
  "truthy None = False"
| "truthy (Some JNull) = False"
| "truthy (Some (JBool b)) = b"
| "truthy (Some (JNum n)) = (n \<noteq> 0)"
| "truthy (Some (JStr s)) = (s \<noteq> [])"
| "truthy (Some (JArr xs)) = True"
| "truthy (Some (JObj kvs)) = True"

text \<open>
  The member read \<^verbatim>\<open>v.k\<close>, for the names the source reads (\<^verbatim>\<open>realmId\<close>, \<^verbatim>\<open>fault\<close>,
  \<^verbatim>\<open>error\<close>, \<^verbatim>\<open>QueryResponse\<close>, \<^verbatim>\<open>Customer\<close>, \<^verbatim>\<open>maxResults\<close>, \<^verbatim>\<open>data\<close>, \<^verbatim>\<open>uuid\<close>),
  none of which is a built-in member of a string, a number or an array: it raises on
  \<^verbatim>\<open>undefined\<close> and \<^verbatim>\<open>null\<close>, looks the key up in an object, and is \<^verbatim>\<open>undefined\<close> on
  every other value.
\<close>

fun get_prop :: "jsval \<Rightarrow> string \<Rightarrow> exn + jsval" where
  "get_prop None k = Inl TypeError"
| "get_prop (Some JNull) k = Inl TypeError"
| "get_prop (Some (JObj kvs)) k = Inr (map_of kvs k)"
| "get_prop (Some (JBool b)) k = Inr None"
| "get_prop (Some (JNum n)) k = Inr None"
| "get_prop (Some (JStr s)) k = Inr None"
| "get_prop (Some (JArr xs)) k = Inr None"

subsection \<open>Conversion to string\<close>

definition digit_char :: "nat \<Rightarrow> char" where
  "digit_char d = char_of (48 + d)"

fun string_of_nat :: "nat \<Rightarrow> string" where
  "string_of_nat n =
     (if n < 10 then [digit_char n] else string_of_nat (n div 10) @ [digit_char (n mod 10)])"

declare string_of_nat.simps [simp del]

definition string_of_int :: "int \<Rightarrow> string" where
  "string_of_int i = (if i < 0 then CHR ''-'' # string_of_nat (nat (- i)) else string_of_nat (nat i))"

fun join_comma :: "string list \<Rightarrow> string" where
  "join_comma [] = []"
| "join_comma [x] = x"
| "join_comma (x # y # ys) = x @ '','' @ join_comma (y # ys)"

text \<open>\<^verbatim>\<open>String(v)\<close>, which a template literal and \<^verbatim>\<open>parseInt\<close> apply to their argument.
  An array is its elements joined by commas, \<^verbatim>\<open>null\<close> elements printed as nothing.\<close>

fun to_string :: "json \<Rightarrow> string" where
  "to_string JNull = ''null''"
| "to_string (JBool b) = (if b then ''true'' else ''false'')"
| "to_string (JNum n) = string_of_int n"
| "to_string (JStr s) = s"
| "to_string (JArr xs) =
     join_comma (map (\<lambda>x. if x = JNull then [] else to_string x) xs)"
| "to_string (JObj kvs) = ''[object Object]''"

definition template :: "jsval \<Rightarrow> string" where
  "template v = (case v of None \<Rightarrow> ''undefined'' | Some j \<Rightarrow> to_string j)"

subsection \<open>\<^verbatim>\<open>parseInt\<close>\<close>

text \<open>
  \<^verbatim>\<open>parseInt(v)\<close> with no radix: the argument is converted to a string, leading white
  space is dropped, then an optional sign, then \<^verbatim>\<open>0x\<close> or \<^verbatim>\<open>0X\<close> selects radix 16; the
  longest prefix of digits is the value and whatever follows is ignored. No digit at all
  is \<^verbatim>\<open>NaN\<close>, here \<open>None\<close>.
\<close>

definition is_ws :: "char \<Rightarrow> bool" where
  "is_ws c = ((of_char c :: nat) \<in> {9, 10, 11, 12, 13, 32, 160})"

definition digit10 :: "char \<Rightarrow> nat option" where
  "digit10 c = (let k = (of_char c :: nat) in if 48 \<le> k \<and> k \<le> 57 then Some (k - 48) else None)"

definition digit16 :: "char \<Rightarrow> nat option" where
  "digit16 c =
     (let k = (of_char c :: nat) in
      if 48 \<le> k \<and> k \<le> 57 then Some (k - 48)
      else if 97 \<le> k \<and> k \<le> 102 then Some (k - 87)
      else if 65 \<le> k \<and> k \<le> 70 then Some (k - 55)
      else None)"

fun parse_digits :: "(char \<Rightarrow> nat option) \<Rightarrow> nat \<Rightarrow> nat option \<Rightarrow> string \<Rightarrow> nat option" where
  "parse_digits dv r acc [] = acc"
| "parse_digits dv r acc (c # cs) =
     (case dv c of
        None \<Rightarrow> acc
      | Some d \<Rightarrow> parse_digits dv r (Some ((case acc of None \<Rightarrow> 0 | Some a \<Rightarrow> a) * r + d)) cs)"

definition strip_sign :: "string \<Rightarrow> bool \<times> string" where
  "strip_sign s =
     (case s of
        [] \<Rightarrow> (False, [])
      | c # cs \<Rightarrow>
          if c = CHR ''-'' then (True, cs)
          else if c = CHR ''+'' then (False, cs)
          else (False, s))"

definition parse_unsigned :: "string \<Rightarrow> nat option" where
  "parse_unsigned s =
     (case s of
        a # b # cs \<Rightarrow>
          if a = CHR ''0'' \<and> (b = CHR ''x'' \<or> b = CHR ''X'')
          then parse_digits digit16 16 None cs
          else parse_digits digit10 10 None s
      | _ \<Rightarrow> parse_digits digit10 10 None s)"

definition parseInt_string :: "string \<Rightarrow> int option" where
  "parseInt_string s =
     (case strip_sign (dropWhile is_ws s) of
        (neg, rest) \<Rightarrow>
          map_option (\<lambda>n. if neg then - int n else int n) (parse_unsigned rest))"

definition parseInt :: "jsval \<Rightarrow> int option" where
  "parseInt v = parseInt_string (template v)"

text \<open>The spread \<^verbatim>\<open>...v\<close> in an argument list: the elements of an array, the characters
  of a string, and a \<^verbatim>\<open>TypeError\<close> for a value that is not iterable.\<close>

fun spread :: "jsval \<Rightarrow> exn + json list" where
  "spread (Some (JArr xs)) = Inr xs"
| "spread (Some (JStr s)) = Inr (map (\<lambda>c. JStr [c]) s)"
| "spread None = Inl TypeError"
| "spread (Some JNull) = Inl TypeError"
| "spread (Some (JBool b)) = Inl TypeError"
| "spread (Some (JNum n)) = Inl TypeError"
| "spread (Some (JObj kvs)) = Inl TypeError"

text \<open>\<^verbatim>\<open>v || ''\<close> on an optional string argument.\<close>

definition or_empty :: "string option \<Rightarrow> string" where
  "or_empty v = (case v of None \<Rightarrow> [] | Some s \<Rightarrow> s)"

text \<open>The message of \<^verbatim>\<open>new Error(v)\<close>: empty when \<^verbatim>\<open>v\<close> is \<^verbatim>\<open>undefined\<close>.\<close>

definition error_message :: "jsval \<Rightarrow> string" where
  "error_message v = (case v of None \<Rightarrow> [] | Some j \<Rightarrow> to_string j)"

text \<open>The member read \<^verbatim>\<open>err.k\<close> on a caught value: an error object made by \<^verbatim>\<open>new Error\<close>
  or by the engine has no member of the names the source reads.\<close>

fun exn_prop :: "exn \<Rightarrow> string \<Rightarrow> exn + jsval" where
  "exn_prop (Error m) k = Inr None"
| "exn_prop TypeError k = Inr None"
| "exn_prop (Thrown v) k = get_prop (Some v) k"

section \<open>The application state and its collaborators\<close>

text \<open>
  The logger, the OAuth client (package \<^verbatim>\<open>intuit-oauth\<close>), the file system and the remote
  API are outside the sources. The state keeps what the application can observe of them:
  the token the OAuth client holds (\<^verbatim>\<open>this.oauth.getToken()\<close>, replaced by
  \<^verbatim>\<open>this.oauth.setToken\<close>), its \<^verbatim>\<open>environment\<close>, the entries handed to the logger, the
  requests handed to \<^verbatim>\<open>makeApiCall\<close>, the number of calls of \<^verbatim>\<open>refresh\<close>, the files,
  the writes \<^verbatim>\<open>fs.writeFile\<close> has accepted and not finished, the lines of
  \<^verbatim>\<open>console.error\<close>, and the rejections of promises that nothing handles.
  Asynchronous functions are run to completion one after the other: no other task is
  interleaved between two \<^verbatim>\<open>await\<close>s.

  Modelled from the spec: the OAuth client, which is not in the sources, holds one
  credential; \<^verbatim>\<open>setToken\<close> replaces it wholesale and \<^verbatim>\<open>getToken\<close> reads it.
\<close>

datatype level = Silly | Debug | Info | Err

datatype log_arg = LStr string | LObj "(string \<times> json) list" | LExn exn

type_synonym log_entry = "level \<times> log_arg list"

record request =
  req_method :: string
  req_url :: string
  req_headers :: jsval
  req_body :: jsval

record auth_response =
  status :: nat
  json :: json

datatype api_outcome = Resolve auth_response | Reject exn

text \<open>The remote side of \<^verbatim>\<open>makeApiCall\<close>: the outcome of a call is a function of the
  number of calls made before it and of the request. The two base addresses are the
  constants \<^verbatim>\<open>OAuthClient.environment.sandbox\<close> and \<^verbatim>\<open>OAuthClient.environment.production\<close>.\<close>

record api =
  sandbox_url :: string
  production_url :: string
  makeApiCall :: "nat \<Rightarrow> request \<Rightarrow> api_outcome"

record app =
  token :: json
  environment :: string
  name :: string
  log :: "log_entry list"
  calls :: "request list"
  refreshes :: nat
  files :: "string \<rightharpoonup> string"
  pending :: "(string \<times> string) list"
  console :: "exn list"
  unhandled :: "exn list"

section \<open>The gateway: \<^verbatim>\<open>quickbooks\<close>\<close>

record qb_args =
  action :: string
  query :: "string option"
  urlParams :: "string option"
  "method" :: "string option"
  headers :: jsval
  body :: jsval

text \<open>The \<^verbatim>\<open>catch\<close> block of \<^verbatim>\<open>quickbooks\<close> (lines 115 to 118): a caught value with a
  truthy \<^verbatim>\<open>error\<close> member is replaced by \<^verbatim>\<open>new Error(err.error)\<close>, any other is thrown
  again.\<close>

definition catch_clause :: "exn \<Rightarrow> exn" where
  "catch_clause err =
     (case exn_prop err ''error'' of
        Inl e \<Rightarrow> e
      | Inr v \<Rightarrow> if truthy v then Error (error_message v) else err)"

definition quickbooks :: "api \<Rightarrow> qb_args \<Rightarrow> app \<Rightarrow> (exn + json) \<times> app" where
  "quickbooks A a s =
     (case get_prop (Some (token s)) ''realmId'' of
        Inl e \<Rightarrow> (Inl (catch_clause e), s)
      | Inr companyID \<Rightarrow>
          if \<not> truthy companyID
          then (Inl (catch_clause (Error ''No company ID. Not connected to QB?'')), s)
          else
           (let url = (if environment s = ''sandbox'' then sandbox_url A else production_url A);
                apiUrl = url @ ''v3/company/'' @ template companyID @ ''/'' @ action a
                           @ or_empty (urlParams a) @ or_empty (query a);
                s1 = s\<lparr>log := log s @ [(Debug, [LStr (''Contacting QB: '' @ apiUrl)])]\<rparr>;
                req = \<lparr>req_method = (case method a of None \<Rightarrow> ''GET'' | Some m \<Rightarrow> if m = [] then ''GET'' else m),
                       req_url = apiUrl, req_headers = headers a, req_body = body a\<rparr>;
                s2 = s1\<lparr>calls := calls s1 @ [req]\<rparr>
            in case makeApiCall A (length (calls s1)) req of
                 Reject e \<Rightarrow> (Inl (catch_clause e), s2)
               | Resolve authResponse \<Rightarrow>
                   (case get_prop (Some (json authResponse)) ''fault'' of
                      Inl e \<Rightarrow> (Inl (catch_clause e), s2)
                    | Inr fault \<Rightarrow>
                        if truthy fault
                        then (case get_prop fault ''error'' of
                                Inl e \<Rightarrow> (Inl (catch_clause e), s2)
                              | Inr m \<Rightarrow> (Inl (catch_clause (Error (error_message m))), s2))
                        else (Inr (json authResponse), s2))))"

section \<open>Pagination: \<^verbatim>\<open>getAllCustomers\<close>\<close>

text \<open>
  Lines 124 to 126 and lines 131 to 133 are the same three statements on a different
  query string: call \<^verbatim>\<open>quickbooks\<close>, push the spread of
  \<^verbatim>\<open>results.QueryResponse.Customer\<close>, and parse \<^verbatim>\<open>results.QueryResponse.maxResults\<close>.
  \<open>read_page\<close> is what the last two take from a body: the records to push and the parsed
  number (\<open>None\<close> for \<^verbatim>\<open>NaN\<close>), or what they throw.
\<close>

definition read_page :: "json \<Rightarrow> exn + (json list \<times> int option)" where
  "read_page results =
     (case get_prop (Some results) ''QueryResponse'' of
        Inl e \<Rightarrow> Inl e
      | Inr qr \<Rightarrow>
          (case get_prop qr ''Customer'' of
             Inl e \<Rightarrow> Inl e
           | Inr c \<Rightarrow>
               (case spread c of
                  Inl e \<Rightarrow> Inl e
                | Inr xs \<Rightarrow>
                    (case get_prop qr ''maxResults'' of
                       Inl e \<Rightarrow> Inl e
                     | Inr m \<Rightarrow> Inr (xs, parseInt m)))))"

definition fetch_page :: "api \<Rightarrow> string \<Rightarrow> app \<Rightarrow> (exn + (json list \<times> int option)) \<times> app" where
  "fetch_page A q s =
     (case quickbooks A \<lparr>action = ''query'', query = Some q, urlParams = None, method = None,
                          headers = None, body = None\<rparr> s of
        (Inl e, s') \<Rightarrow> (Inl e, s')
      | (Inr results, s') \<Rightarrow> (read_page results, s'))"

text \<open>\<^verbatim>\<open>${maxResults}\<close> on the number that \<^verbatim>\<open>parseInt\<close> returned.\<close>

definition number_template :: "int option \<Rightarrow> string" where
  "number_template m = (case m of None \<Rightarrow> ''NaN'' | Some n \<Rightarrow> string_of_int n)"

definition first_query :: string where
  "first_query = ''?query=SELECT * FROM Customer MAXRESULTS 1000''"

definition next_query :: "int option \<Rightarrow> string" where
  "next_query maxResults =
     ''?query=SELECT * FROM Customer STARTPOSITION '' @ number_template maxResults @ '' MAXRESULTS 1000''"

text \<open>The \<^verbatim>\<open>while\<close> loop of lines 130 to 134. It may run forever: the value \<open>None\<close> is
  the loop that does not return. An exception leaves the loop and the function.\<close>

partial_function (option) customers_loop ::
  "api \<Rightarrow> int option \<Rightarrow> json list \<Rightarrow> app \<Rightarrow> ((exn + json list) \<times> app) option" where
  "customers_loop A maxResults customers s =
     (if maxResults = Some 1000
      then (case fetch_page A (next_query maxResults) s of
              (Inl e, s') \<Rightarrow> Some (Inl e, s')
            | (Inr (xs, m), s') \<Rightarrow> customers_loop A m (customers @ xs) s')
      else Some (Inr customers, s))"

definition getAllCustomers :: "api \<Rightarrow> app \<Rightarrow> ((exn + json list) \<times> app) option" where
  "getAllCustomers A s =
     (case fetch_page A first_query s of
        (Inl e, s') \<Rightarrow> Some (Inl e, s')
      | (Inr (xs, initialMaxResults), s') \<Rightarrow>
          if initialMaxResults = Some 1000
          then customers_loop A initialMaxResults ([] @ xs) s'
          else Some (Inr ([] @ xs), s'))"

section \<open>Credential store and refresh\<close>

text \<open>
  \<^verbatim>\<open>JSON.stringify\<close>, \<^verbatim>\<open>JSON.parse\<close> and \<^verbatim>\<open>os.tmpdir()\<close> belong to the runtime and are
  parameters; \<open>JSON_parse\<close> is \<open>None\<close> where \<^verbatim>\<open>JSON.parse\<close> throws. The path of the token
  file is \<^verbatim>\<open>path.join(os.tmpdir(), 'helio-qbo-token')\<close>, written the same way at both
  places that use it; it is taken here as the two parts joined by a slash.
\<close>

record runtime =
  tmpdir :: string
  JSON_stringify :: "json \<Rightarrow> string"
  JSON_parse :: "string \<Rightarrow> json option"

definition token_path :: "runtime \<Rightarrow> string" where
  "token_path R = tmpdir R @ ''/helio-qbo-token''"

text \<open>\<^verbatim>\<open>setAccessToken\<close> (lines 82 to 87): the OAuth client takes the token, and
  \<^verbatim>\<open>fs.writeFile\<close> accepts the write and returns; the write finishes later.\<close>

definition setAccessToken :: "runtime \<Rightarrow> json \<Rightarrow> app \<Rightarrow> app" where
  "setAccessToken R tok s =
     s\<lparr>token := tok, pending := pending s @ [(token_path R, JSON_stringify R tok)]\<rparr>"

text \<open>The oldest accepted write finishes, and its callback (line 85) runs: on an error
  the error goes to \<^verbatim>\<open>console.error\<close> and the file is left as it was.\<close>

datatype write_result = Written | WriteError exn

definition writeFile_settles :: "write_result \<Rightarrow> app \<Rightarrow> app" where
  "writeFile_settles w s =
     (case pending s of
        [] \<Rightarrow> s
      | (p, d) # rest \<Rightarrow>
          (case w of
             Written \<Rightarrow> s\<lparr>files := (files s)(p \<mapsto> d), pending := rest\<rparr>
           | WriteError e \<Rightarrow> s\<lparr>console := console s @ [e], pending := rest\<rparr>))"

text \<open>\<^verbatim>\<open>this.oauth.refresh()\<close> is a parameter: from the number of earlier calls and the
  token held, it resolves with a response that carries a token, or rejects.\<close>

datatype refresh_outcome = Refreshed json | RefreshRejected exn

definition refreshToken ::
  "(nat \<Rightarrow> json \<Rightarrow> refresh_outcome) \<Rightarrow> runtime \<Rightarrow> app \<Rightarrow> (exn + json) \<times> app" where
  "refreshToken refresh R s =
     (let s0 = s\<lparr>refreshes := Suc (refreshes s)\<rparr> in
      case refresh (refreshes s) (token s) of
        RefreshRejected e \<Rightarrow> (Inl e, s0)
      | Refreshed tok \<Rightarrow>
          (let s1 = setAccessToken R tok s0;
               s2 = s1\<lparr>log := log s1 @
                      [(Info, [LStr (name s1),
                               LObj [(''message'', JStr ''Successfully refreshed access token!'')]])]\<rparr>
           in (Inr tok, s2)))"

text \<open>
  The callback of \<^verbatim>\<open>setInterval\<close> (lines 77 to 79) calls \<^verbatim>\<open>this.refreshToken()\<close> and
  drops the promise: it has no \<^verbatim>\<open>await\<close>, no \<^verbatim>\<open>catch\<close> and no \<^verbatim>\<open>try\<close>. A rejection is
  therefore a rejection that nothing handles, and what happens to the process then is
  the policy of the runtime.
\<close>

definition interval_ms :: nat where
  "interval_ms = 1800000"

definition timer_tick :: "(nat \<Rightarrow> json \<Rightarrow> refresh_outcome) \<Rightarrow> runtime \<Rightarrow> app \<Rightarrow> app" where
  "timer_tick refresh R s =
     (case refreshToken refresh R s of
        (Inl e, s') \<Rightarrow> s'\<lparr>unhandled := unhandled s' @ [e]\<rparr>
      | (Inr tok, s') \<Rightarrow> s')"

text \<open>
  The load at start-up (lines 66 to 74). \<^verbatim>\<open>readFileSync\<close> throws when the file is not
  there and \<^verbatim>\<open>JSON.parse\<close> throws on a text that is not JSON; the \<^verbatim>\<open>catch\<close> logs and
  goes on. The boolean tells whether \<^verbatim>\<open>this.refreshToken()\<close> was started: it is not
  awaited, so it settles after the constructor has returned, as a timer tick does.
\<close>

definition load_token :: "runtime \<Rightarrow> app \<Rightarrow> app \<times> bool" where
  "load_token R s =
     (let not_found = s\<lparr>log := log s @
                         [(Silly, [LStr ''Did not find a locally stored QBO access token''])]\<rparr>
      in case files s (token_path R) of
           None \<Rightarrow> (not_found, False)
         | Some text \<Rightarrow>
             (case JSON_parse R text of
                None \<Rightarrow> (not_found, False)
              | Some data \<Rightarrow>
                  (setAccessToken R data
                     (s\<lparr>log := log s @ [(Silly, [LStr ''Read locally stored QBO access token''])]\<rparr>),
                   True)))"

definition startup :: "(nat \<Rightarrow> json \<Rightarrow> refresh_outcome) \<Rightarrow> runtime \<Rightarrow> app \<Rightarrow> app" where
  "startup refresh R s =
     (case load_token R s of
        (s', True) \<Rightarrow> timer_tick refresh R s'
      | (s', False) \<Rightarrow> s')"

section \<open>Routes\<close>

datatype payload = Text string | Json json

datatype reply = Reply nat payload

text \<open>\<^verbatim>\<open>qbStatus\<close> (lines 142 to 147): \<^verbatim>\<open>res.json\<close> of an object literal, with the
  default status 200.\<close>

definition qbStatus :: "app \<Rightarrow> reply" where
  "qbStatus s = Reply 200 (Json (JObj [(''appAuthorized'', JBool False), (''oauthToken'', JNull)]))"

record http_request =
  path :: string
  authorization :: "string option"
  user :: jsval

text \<open>\<^verbatim>\<open>s.split(' ')\<close>: the pieces between single spaces, empty pieces included.\<close>

fun split_on :: "char \<Rightarrow> string \<Rightarrow> string list" where
  "split_on c [] = [[]]"
| "split_on c (x # xs) =
     (if x = c then [] # split_on c xs
      else (case split_on c xs of [] \<Rightarrow> [[x]] | w # ws \<Rightarrow> (x # w) # ws))"

text \<open>Line 40: \<^verbatim>\<open>req.headers.authorization ? req.headers.authorization.split(' ')[1] : null\<close>.
  \<open>None\<close> stands for both \<^verbatim>\<open>null\<close> and \<^verbatim>\<open>undefined\<close>, which line 41 treats alike.\<close>

definition bearer_token :: "http_request \<Rightarrow> string option" where
  "bearer_token req =
     (case authorization req of
        None \<Rightarrow> None
      | Some a \<Rightarrow>
          if a = [] then None
          else (case split_on CHR '' '' a of x # y # ys \<Rightarrow> Some y | _ \<Rightarrow> None))"

datatype verdict = Respond nat payload | Next http_request | NextErr exn | Throws exn

text \<open>\<^verbatim>\<open>decodeUserToken\<close> (lines 39 to 48). \<^verbatim>\<open>jwt.verify\<close> with the secret of the
  environment is the parameter \<open>verify\<close>: an error or the payload.\<close>

definition decodeUserToken :: "(string \<Rightarrow> exn + json) \<Rightarrow> http_request \<Rightarrow> verdict" where
  "decodeUserToken verify req =
     (case bearer_token req of
        None \<Rightarrow> Respond 401 (Text ''Unauthorized'')
      | Some tok \<Rightarrow>
          if tok = [] then Respond 401 (Text ''Unauthorized'')
          else (case verify tok of
                  Inl err \<Rightarrow> NextErr err
                | Inr payload \<Rightarrow>
                    (case get_prop (Some payload) ''data'' of
                       Inl e \<Rightarrow> Throws e
                     | Inr d \<Rightarrow>
                         (case get_prop d ''uuid'' of
                            Inl e \<Rightarrow> Throws e
                          | Inr u \<Rightarrow> if truthy u then Next (req\<lparr>user := d\<rparr>) else Next req))))"

datatype middleware = DecodeUserToken

datatype handler =
    QbStatus | Authorize | IntuitCallback | DoRefreshToken | IsTokenValid
  | GetCompanyInfo | GetCustomers | GenerateFakeCustomers

text \<open>The registrations of lines 56 to 64, in their order: the path, the functions
  given before the handler, the handler.\<close>

definition routes :: "(string \<times> middleware list \<times> handler) list" where
  "routes =
     [(''/'', [DecodeUserToken], QbStatus),
      (''/authorize'', [DecodeUserToken], Authorize),
      (''/callback'', [], IntuitCallback),
      (''/token/refresh'', [DecodeUserToken], DoRefreshToken),
      (''/token/valid'', [DecodeUserToken], IsTokenValid),
      (''/company'', [DecodeUserToken], GetCompanyInfo),
      (''/customers'', [DecodeUserToken], GetCustomers),
      (''/customers/generate'', [DecodeUserToken], GenerateFakeCustomers)]"

text \<open>
  Modelled from the spec: the router, which registers paths and invokes handlers, is not
  in the sources. A \<^verbatim>\<open>GET\<close> request goes to the first registration
  with its path; the functions registered there run in order, each one ending the request
  with a response, passing it on with \<^verbatim>\<open>next()\<close>, or failing; the handler runs when
  all have passed it on. \<open>Handled h req\<close> is the call of handler \<open>h\<close> on \<open>req\<close>.
\<close>

datatype dispatched = Replied nat payload | Handled handler http_request | Failed exn | NoRoute

fun run_chain ::
  "(string \<Rightarrow> exn + json) \<Rightarrow> middleware list \<Rightarrow> handler \<Rightarrow> http_request \<Rightarrow> dispatched" where
  "run_chain verify [] h req = Handled h req"
| "run_chain verify (DecodeUserToken # rest) h req =
     (case decodeUserToken verify req of
        Respond c p \<Rightarrow> Replied c p
      | Next req' \<Rightarrow> run_chain verify rest h req'
      | NextErr e \<Rightarrow> Failed e
      | Throws e \<Rightarrow> Failed e)"

definition dispatch :: "(string \<Rightarrow> exn + json) \<Rightarrow> http_request \<Rightarrow> dispatched" where
  "dispatch verify req =
     (case find (\<lambda>(p, mws, h). p = path req) routes of
        None \<Rightarrow> NoRoute
      | Some (p, mws, h) \<Rightarrow> run_chain verify mws h req)"

section \<open>Notions used in the statements\<close>

text \<open>A tenant is bound: the token held has a truthy \<^verbatim>\<open>realmId\<close>, so that line 99 does
  not throw.\<close>

definition connected :: "app \<Rightarrow> bool" where
  "connected s = (case get_prop (Some (token s)) ''realmId'' of Inl e \<Rightarrow> False | Inr c \<Rightarrow> truthy c)"

text \<open>The request that \<^verbatim>\<open>quickbooks\<close> hands to \<^verbatim>\<open>makeApiCall\<close>, and the state once it is
  handed over.\<close>

definition build_request :: "api \<Rightarrow> qb_args \<Rightarrow> app \<Rightarrow> request" where
  "build_request A a s =
     \<lparr>req_method = (case method a of None \<Rightarrow> ''GET'' | Some m \<Rightarrow> if m = [] then ''GET'' else m),
      req_url = (if environment s = ''sandbox'' then sandbox_url A else production_url A)
                @ ''v3/company/''
                @ template (case get_prop (Some (token s)) ''realmId'' of Inl e \<Rightarrow> None | Inr c \<Rightarrow> c)
                @ ''/'' @ action a @ or_empty (urlParams a) @ or_empty (query a),
      req_headers = headers a, req_body = body a\<rparr>"

definition issued :: "request \<Rightarrow> app \<Rightarrow> app" where
  "issued r s =
     s\<lparr>log := log s @ [(Debug, [LStr (''Contacting QB: '' @ req_url r)])],
       calls := calls s @ [r]\<rparr>"

text \<open>What \<^verbatim>\<open>quickbooks\<close> returns or throws for an outcome of the call (lines 113 to 118),
  and what one page fetch of \<^verbatim>\<open>getAllCustomers\<close> makes of it.\<close>

definition settle :: "api_outcome \<Rightarrow> exn + json" where
  "settle out =
     (case out of
        Reject e \<Rightarrow> Inl (catch_clause e)
      | Resolve r \<Rightarrow>
          (case get_prop (Some (json r)) ''fault'' of
             Inl e \<Rightarrow> Inl (catch_clause e)
           | Inr fault \<Rightarrow>
               if truthy fault
               then (case get_prop fault ''error'' of
                       Inl e \<Rightarrow> Inl (catch_clause e)
                     | Inr m \<Rightarrow> Inl (catch_clause (Error (error_message m))))
               else Inr (json r)))"

definition page_view :: "api_outcome \<Rightarrow> exn + (json list \<times> int option)" where
  "page_view out = (case settle out of Inl e \<Rightarrow> Inl e | Inr results \<Rightarrow> read_page results)"

definition query_args :: "string \<Rightarrow> qb_args" where
  "query_args q = \<lparr>action = ''query'', query = Some q, urlParams = None, method = None,
                    headers = None, body = None\<rparr>"

text \<open>
  The pages of one run of \<^verbatim>\<open>getAllCustomers\<close> from state \<open>s\<close>, counted from 0: the query
  string and the request of page \<open>i\<close>, what the fetch of page \<open>i\<close> yields, and the state
  after the first \<open>n\<close> requests.
\<close>

definition page_query :: "nat \<Rightarrow> string" where
  "page_query i = (if i = 0 then first_query else next_query (Some 1000))"

definition page_request :: "api \<Rightarrow> app \<Rightarrow> nat \<Rightarrow> request" where
  "page_request A s i = build_request A (query_args (page_query i)) s"

definition page :: "api \<Rightarrow> app \<Rightarrow> nat \<Rightarrow> exn + (json list \<times> int option)" where
  "page A s i = page_view (makeApiCall A (length (calls s) + i) (page_request A s i))"

primrec fetched :: "api \<Rightarrow> app \<Rightarrow> nat \<Rightarrow> app" where
  "fetched A s 0 = s"
| "fetched A s (Suc n) = issued (page_request A s n) (fetched A s n)"

text \<open>A page keeps the loop going when it was read without an exception and its parsed
  \<^verbatim>\<open>maxResults\<close> is 1000. \<open>records\<close> are the records a page adds; \<open>outcome\<close> is how the
  function ends on the page that stops it.\<close>

definition continues :: "exn + (json list \<times> int option) \<Rightarrow> bool" where
  "continues v = (case v of Inl e \<Rightarrow> False | Inr (xs, m) \<Rightarrow> m = Some 1000)"

definition records :: "exn + (json list \<times> int option) \<Rightarrow> json list" where
  "records v = (case v of Inl e \<Rightarrow> [] | Inr (xs, m) \<Rightarrow> xs)"

definition outcome :: "json list \<Rightarrow> exn + (json list \<times> int option) \<Rightarrow> exn + json list" where
  "outcome acc v = (case v of Inl e \<Rightarrow> Inl e | Inr (xs, m) \<Rightarrow> Inr (acc @ xs))"

text \<open>A body is a page with records \<open>xs\<close> and \<^verbatim>\<open>maxResults\<close> member \<open>m\<close> (\<open>None\<close> when
  the member is missing): it has no truthy \<^verbatim>\<open>fault\<close>, and \<^verbatim>\<open>QueryResponse.Customer\<close>
  spreads to \<open>xs\<close>.\<close>

definition page_fields :: "json \<Rightarrow> (json list \<times> jsval) option" where
  "page_fields b =
     (case get_prop (Some b) ''fault'' of
        Inl e \<Rightarrow> None
      | Inr f \<Rightarrow>
          if truthy f then None
          else (case get_prop (Some b) ''QueryResponse'' of
                  Inl e \<Rightarrow> None
                | Inr qr \<Rightarrow>
                    (case get_prop qr ''Customer'' of
                       Inl e \<Rightarrow> None
                     | Inr c \<Rightarrow>
                         (case spread c of
                            Inl e \<Rightarrow> None
                          | Inr xs \<Rightarrow>
                              (case get_prop qr ''maxResults'' of
                                 Inl e \<Rightarrow> None
                               | Inr m \<Rightarrow> Some (xs, m))))))"

text \<open>The page reports its record count in \<^verbatim>\<open>maxResults\<close>.\<close>

definition reports_count :: "json list \<Rightarrow> jsval \<Rightarrow> bool" where
  "reports_count xs m = (parseInt m = Some (int (length xs)))"

text \<open>The address that the query string is appended to.\<close>

definition query_url :: "api \<Rightarrow> app \<Rightarrow> string" where
  "query_url A s =
     (if environment s = ''sandbox'' then sandbox_url A else production_url A)
       @ ''v3/company/''
       @ template (case get_prop (Some (token s)) ''realmId'' of Inl e \<Rightarrow> None | Inr c \<Rightarrow> c)
       @ ''/query''"

text \<open>The fault marker of a body is a truthy \<^verbatim>\<open>fault\<close> member (line 113); the message
  of the error raised for it is its \<^verbatim>\<open>error\<close> member as a string.\<close>

definition has_fault :: "json \<Rightarrow> bool" where
  "has_fault b = (case get_prop (Some b) ''fault'' of Inl e \<Rightarrow> False | Inr f \<Rightarrow> truthy f)"

definition fault_message :: "json \<Rightarrow> string" where
  "fault_message b =
     (case get_prop (Some b) ''fault'' of
        Inl e \<Rightarrow> []
      | Inr f \<Rightarrow> (case get_prop f ''error'' of Inl e \<Rightarrow> [] | Inr m \<Rightarrow> error_message m))"

text \<open>A request carries no token for the guard: no \<^verbatim>\<open>authorization\<close> header, an empty
  one, or one with nothing after its first space.\<close>

definition no_token :: "http_request \<Rightarrow> bool" where
  "no_token req = (bearer_token req = None \<or> bearer_token req = Some [])"

text \<open>The number that the digits read so far stand for.\<close>

definition acc_value :: "nat option \<Rightarrow> nat" where
  "acc_value acc = (case acc of None \<Rightarrow> 0 | Some a \<Rightarrow> a)"

subsection \<open>Concrete inputs\<close>

definition demo_token :: json where
  "demo_token =
     JObj [(''realmId'', JStr ''4620816365''), (''token_type'', JStr ''bearer''),
           (''access_token'', JStr ''AT-1''), (''refresh_token'', JStr ''RT-1''),
           (''expires_in'', JNum 3600), (''x_refresh_token_expires_in'', JNum 8726400)]"

definition demo_app :: app where
  "demo_app =
     \<lparr>token = demo_token, environment = ''sandbox'', name = ''Helio Quickbooks API'',
      log = [], calls = [], refreshes = 0, files = Map.empty, pending = [],
      console = [], unhandled = []\<rparr>"

definition customer :: json where
  "customer = JObj [(''Id'', JStr ''1''), (''DisplayName'', JStr ''Amy'')]"

definition full_page :: "json list" where
  "full_page = replicate 1000 customer"

definition page_body :: "json list \<Rightarrow> jsval \<Rightarrow> json" where
  "page_body xs m =
     JObj [(''QueryResponse'',
            JObj ((''Customer'', JArr xs) #
                  (case m of None \<Rightarrow> [] | Some v \<Rightarrow> [(''startPosition'', JNum 1), (''maxResults'', v)]))),
           (''time'', JStr ''2020-01-01T00:00:00.000-08:00'')]"

text \<open>A remote that answers the \<open>n\<close>-th call with the body \<open>bodies n\<close> and status 200,
  whatever the request.\<close>

definition serve :: "(nat \<Rightarrow> json) \<Rightarrow> api" where
  "serve bodies =
     \<lparr>sandbox_url = ''https://sandbox-quickbooks.api.intuit.com/'',
      production_url = ''https://quickbooks.api.intuit.com/'',
      makeApiCall = (\<lambda>n r. Resolve \<lparr>status = 200, json = bodies n\<rparr>)\<rparr>"

definition two_pages :: "nat \<Rightarrow> json" where
  "two_pages n = (if n = 0 then page_body full_page (Some (JNum 1000))
                  else page_body [customer] (Some (JNum 1)))"

definition three_pages :: "nat \<Rightarrow> json" where
  "three_pages n = (if n < 2 then page_body full_page (Some (JNum 1000))
                    else page_body [customer] (Some (JNum 1)))"

text \<open>A tenant with 2000 customers or more, as this code sees it: every answer is a
  full page.\<close>

definition full_pages :: "nat \<Rightarrow> json" where
  "full_pages n = page_body full_page (Some (JNum 1000))"

definition unreported_pages :: "nat \<Rightarrow> json" where
  "unreported_pages n = page_body full_page None"




definition empty_result :: "nat \<Rightarrow> json" where
  "empty_result n = JObj [(''QueryResponse'', JObj []), (''time'', JStr ''2020-01-01T00:00:00.000-08:00'')]"

definition fault_body :: json where
  "fault_body = JObj [(''fault'', JObj [(''error'', JStr ''Invalid query''), (''type'', JStr ''ValidationFault'')])]"

definition company_args :: qb_args where
  "company_args = \<lparr>action = ''companyinfo'', query = None, urlParams = Some ''/4620816365'', method = None,
                    headers = None, body = None\<rparr>"

definition failing_refresh :: "nat \<Rightarrow> json \<Rightarrow> refresh_outcome" where
  "failing_refresh n tok = RefreshRejected (Thrown (JObj [(''error'', JStr ''invalid_grant'')]))"

text \<open>The text that \<^verbatim>\<open>JSON.stringify\<close> gives for \<open>demo_token\<close>.\<close>

definition quoted :: "string \<Rightarrow> string" where
  "quoted s = CHR 0x22 # s @ [CHR 0x22]"

definition demo_text :: string where
  "demo_text =
     ''{'' @ quoted ''realmId'' @ '':'' @ quoted ''4620816365''
      @ '','' @ quoted ''token_type'' @ '':'' @ quoted ''bearer''
      @ '','' @ quoted ''access_token'' @ '':'' @ quoted ''AT-1''
      @ '','' @ quoted ''refresh_token'' @ '':'' @ quoted ''RT-1''
      @ '','' @ quoted ''expires_in'' @ '':3600''
      @ '','' @ quoted ''x_refresh_token_expires_in'' @ '':8726400}''"

definition demo_runtime :: runtime where
  "demo_runtime =
     \<lparr>tmpdir = ''/tmp'',
      JSON_stringify = (\<lambda>v. if v = demo_token then demo_text else ''null''),
      JSON_parse = (\<lambda>t. if t = demo_text then Some demo_token
                          else if t = ''null'' then Some JNull else None)\<rparr>"

text \<open>A \<^verbatim>\<open>jwt.verify\<close> that accepts no token.\<close>

definition verify_none :: "string \<Rightarrow> exn + json" where
  "verify_none t = Inl (Error ''jwt malformed'')"

definition anonymous_request :: "string \<Rightarrow> http_request" where
  "anonymous_request p = \<lparr>path = p, authorization = None, user = None\<rparr>"

section \<open>Numbers survive printing and \<^verbatim>\<open>parseInt\<close>\<close>

lemma of_char_digit:
  assumes "d < 10"
  shows "(of_char (digit_char d) :: nat) = 48 + d"
  using assms by (simp add: digit_char_def)

lemma digit10_digit_char:
  assumes "d < 10"
  shows "digit10 (digit_char d) = Some d"
  using assms by (simp add: digit10_def of_char_digit)

lemma digit_char_plain:
  assumes "d < 10"
  shows "\<not> is_ws (digit_char d)" "digit_char d \<noteq> CHR ''-''" "digit_char d \<noteq> CHR ''+''"
    "digit_char d \<noteq> CHR ''x''" "digit_char d \<noteq> CHR ''X''"
proof -
  have k: "(of_char (digit_char d) :: nat) = 48 + d" by (rule of_char_digit [OF assms])
  show "\<not> is_ws (digit_char d)"
    using assms by (simp add: is_ws_def k)
  show "digit_char d \<noteq> CHR ''-''"
  proof
    assume "digit_char d = CHR ''-''"
    then have "(of_char (digit_char d) :: nat) = of_char CHR ''-''" by simp
    with k show False by simp
  qed
  show "digit_char d \<noteq> CHR ''+''"
  proof
    assume "digit_char d = CHR ''+''"
    then have "(of_char (digit_char d) :: nat) = of_char CHR ''+''" by simp
    with k show False by simp
  qed
  show "digit_char d \<noteq> CHR ''x''"
  proof
    assume "digit_char d = CHR ''x''"
    then have "(of_char (digit_char d) :: nat) = of_char CHR ''x''" by simp
    with k assms show False by simp
  qed
  show "digit_char d \<noteq> CHR ''X''"
  proof
    assume "digit_char d = CHR ''X''"
    then have "(of_char (digit_char d) :: nat) = of_char CHR ''X''" by simp
    with k assms show False by simp
  qed
qed

lemma parse_digits_string_of_nat:
  "parse_digits digit10 10 acc (string_of_nat n @ rest) =
     parse_digits digit10 10 (Some (acc_value acc * 10 ^ length (string_of_nat n) + n)) rest"
proof (induction n arbitrary: acc rest rule: string_of_nat.induct)
  case (1 n)
  show ?case
  proof (cases "n < 10")
    case True
    then show ?thesis
      by (subst (1 2) string_of_nat.simps) (simp add: digit10_digit_char acc_value_def)
  next
    case False
    have m: "n mod 10 < 10" by simp
    have s: "string_of_nat n = string_of_nat (n div 10) @ [digit_char (n mod 10)]"
      using False by (subst string_of_nat.simps) simp
    have "parse_digits digit10 10 acc (string_of_nat n @ rest) =
          parse_digits digit10 10 acc (string_of_nat (n div 10) @ digit_char (n mod 10) # rest)"
      by (simp add: s)
    also have "\<dots> = parse_digits digit10 10
          (Some (acc_value acc * 10 ^ length (string_of_nat (n div 10)) + n div 10))
          (digit_char (n mod 10) # rest)"
      by (rule "1.IH" [OF False])
    also have "\<dots> = parse_digits digit10 10
          (Some ((acc_value acc * 10 ^ length (string_of_nat (n div 10)) + n div 10) * 10 + n mod 10))
          rest"
      by (simp add: digit10_digit_char [OF m])
    also have "(acc_value acc * 10 ^ length (string_of_nat (n div 10)) + n div 10) * 10 + n mod 10 =
          acc_value acc * 10 ^ length (string_of_nat n) + n"
      by (simp add: s algebra_simps)
    finally show ?thesis .
  qed
qed

lemma string_of_nat_hd:
  "\<exists>d cs. d < 10 \<and> string_of_nat n = digit_char d # cs \<and> (\<forall>c\<in>set cs. \<exists>e<10. c = digit_char e)"
proof (induction n rule: string_of_nat.induct)
  case (1 n)
  show ?case
  proof (cases "n < 10")
    case True
    then show ?thesis
      by (subst string_of_nat.simps) auto
  next
    case False
    from "1.IH" [OF False] obtain d cs where
      d: "d < 10" "string_of_nat (n div 10) = digit_char d # cs" "\<forall>c\<in>set cs. \<exists>e<10. c = digit_char e"
      by blast
    have m: "n mod 10 < 10" by simp
    have "string_of_nat n = digit_char d # (cs @ [digit_char (n mod 10)])"
      using False d(2) by (subst string_of_nat.simps) simp
    moreover have "\<exists>e<10. digit_char (n mod 10) = digit_char e"
      using m by blast
    then have "\<forall>c\<in>set (cs @ [digit_char (n mod 10)]). \<exists>e<10. c = digit_char e"
      using d(3) by simp
    ultimately show ?thesis using d(1) by blast
  qed
qed

lemma parse_unsigned_string_of_nat: "parse_unsigned (string_of_nat n) = Some n"
proof -
  from string_of_nat_hd [of n] obtain d cs where
    d: "d < 10" "string_of_nat n = digit_char d # cs" "\<forall>c\<in>set cs. \<exists>e<10. c = digit_char e"
    by blast
  have p: "parse_digits digit10 10 None (string_of_nat n) = Some n"
    using parse_digits_string_of_nat [of None n "[]"] by (simp add: acc_value_def)
  show ?thesis
  proof (cases cs)
    case Nil
    with d(2) p show ?thesis by (simp add: parse_unsigned_def)
  next
    case (Cons b cs')
    with d(3) obtain e where e: "e < 10" "b = digit_char e" by auto
    have "b \<noteq> CHR ''x''" "b \<noteq> CHR ''X''"
      using digit_char_plain [OF e(1)] e(2) by simp_all
    with d(2) Cons p show ?thesis by (simp add: parse_unsigned_def)
  qed
qed

lemma parseInt_string_nat: "parseInt_string (string_of_nat n) = Some (int n)"
proof -
  from string_of_nat_hd [of n] obtain d cs where
    d: "d < 10" "string_of_nat n = digit_char d # cs"
    by blast
  have "dropWhile is_ws (string_of_nat n) = string_of_nat n"
    using digit_char_plain(1) [OF d(1)] d(2) by simp
  moreover have "strip_sign (string_of_nat n) = (False, string_of_nat n)"
    using digit_char_plain(2,3) [OF d(1)] d(2) by (simp add: strip_sign_def)
  ultimately show ?thesis
    by (simp add: parseInt_string_def parse_unsigned_string_of_nat)
qed

lemma parseInt_JNum: "parseInt (Some (JNum i)) = Some i"
proof (cases "i < 0")
  case False
  then show ?thesis
    by (simp add: parseInt_def template_def string_of_int_def parseInt_string_nat)
next
  case True
  have "\<not> is_ws CHR ''-''" by (simp add: is_ws_def)
  then have "parseInt_string (CHR ''-'' # string_of_nat (nat (- i))) = Some (- int (nat (- i)))"
    by (simp add: parseInt_string_def strip_sign_def parse_unsigned_string_of_nat)
  with True show ?thesis
    by (simp add: parseInt_def template_def string_of_int_def)
qed

lemma reports_count_JNum: "reports_count xs (Some (JNum (int (length xs))))"
  by (simp add: reports_count_def parseInt_JNum)

lemma getAll_unconnected:
  assumes "\<not> connected s"
  shows "\<exists>e. getAllCustomers A s = Some (Inl e, s)"
  using assms
  by (auto simp: connected_def getAllCustomers_def fetch_page_def quickbooks_def split: sum.splits)

section \<open>Facts about the gateway and the loop\<close>

lemma quickbooks_connected:
  assumes "connected s"
  shows "quickbooks A a s =
           (settle (makeApiCall A (length (calls s)) (build_request A a s)),
            issued (build_request A a s) s)"
proof -
  from assms obtain c where c: "get_prop (Some (token s)) ''realmId'' = Inr c" "truthy c"
    by (auto simp: connected_def split: sum.splits)
  have url: "req_url (build_request A a s) =
      (if environment s = ''sandbox'' then sandbox_url A else production_url A)
                @ ''v3/company/'' @ template c @ ''/'' @ action a @ or_empty (urlParams a) @ or_empty (query a)"
    by (simp add: build_request_def c)
  show ?thesis
    unfolding quickbooks_def c sum.case Let_def
    apply (simp only: c(2) not_True_eq_False if_False)
    apply (simp only: url [symmetric])
    apply (cases "makeApiCall A (length (calls s)) (build_request A a s)")
     apply (simp_all add: settle_def issued_def build_request_def c split: sum.splits)
    done
qed

lemma fetch_page_connected:
  assumes "connected s"
  shows "fetch_page A q s =
           (page_view (makeApiCall A (length (calls s)) (build_request A (query_args q) s)),
            issued (build_request A (query_args q) s) s)"
  unfolding fetch_page_def query_args_def [symmetric] quickbooks_connected [OF assms]
  by (simp add: page_view_def split: sum.splits)

lemma connected_issued [simp]: "connected (issued r s) = connected s"
  by (simp add: connected_def issued_def)

lemma calls_issued [simp]: "calls (issued r s) = calls s @ [r]"
  by (simp add: issued_def)

lemma build_request_issued [simp]: "build_request A a (issued r s) = build_request A a s"
  by (simp add: build_request_def issued_def)

lemma connected_fetched [simp]: "connected (fetched A s n) = connected s"
  by (induction n) simp_all

lemma length_calls_fetched [simp]: "length (calls (fetched A s n)) = length (calls s) + n"
  by (induction n) simp_all

lemma build_request_fetched [simp]: "build_request A a (fetched A s n) = build_request A a s"
  by (induction n) simp_all

lemma fetch_nth:
  assumes "connected s"
  shows "fetch_page A (page_query n) (fetched A s n) = (page A s n, fetched A s (Suc n))"
  using assms by (simp add: fetch_page_connected page_def page_request_def)

lemma loop_step:
  assumes "connected s" "0 < n" "continues (page A s n)"
  shows "customers_loop A (Some 1000) acc (fetched A s n) =
         customers_loop A (Some 1000) (acc @ records (page A s n)) (fetched A s (Suc n))"
proof -
  from assms(3) obtain xs where p: "page A s n = Inr (xs, Some 1000)"
    by (auto simp: continues_def split: sum.splits)
  have q: "next_query (Some 1000) = page_query n"
    using assms(2) by (simp add: page_query_def)
  show ?thesis
    by (subst customers_loop.simps) (simp add: q fetch_nth [OF assms(1)] p records_def del: fetched.simps)
qed

lemma loop_stop:
  assumes "connected s" "0 < n" "\<not> continues (page A s n)"
  shows "customers_loop A (Some 1000) acc (fetched A s n) =
         Some (outcome acc (page A s n), fetched A s (Suc n))"
proof -
  have q: "next_query (Some 1000) = page_query n"
    using assms(2) by (simp add: page_query_def)
  show ?thesis
  proof (cases "page A s n")
    case (Inl e)
    then show ?thesis
      by (subst customers_loop.simps) (simp add: q fetch_nth [OF assms(1)] outcome_def del: fetched.simps)
  next
    case (Inr r)
    obtain xs m where r: "r = (xs, m)" by (cases r)
    with Inr assms(3) have m: "m \<noteq> Some 1000" by (simp add: continues_def)
    have "customers_loop A (Some 1000) acc (fetched A s n) =
          customers_loop A m (acc @ xs) (fetched A s (Suc n))"
      by (subst customers_loop.simps) (simp add: q fetch_nth [OF assms(1)] Inr r del: fetched.simps)
    also have "\<dots> = Some (Inr (acc @ xs), fetched A s (Suc n))"
      by (subst customers_loop.simps) (simp add: m)
    finally show ?thesis by (simp add: Inr r outcome_def)
  qed
qed

lemma loop_run:
  assumes "connected s" "0 < j" "j \<le> k" "\<forall>i. j \<le> i \<and> i < k \<longrightarrow> continues (page A s i)"
  shows "customers_loop A (Some 1000) acc (fetched A s j) =
         customers_loop A (Some 1000) (acc @ concat (map (\<lambda>i. records (page A s i)) [j..<k]))
           (fetched A s k)"
  using assms(3,4)
proof (induction k rule: dec_induct)
  case base
  show ?case by simp
next
  case (step n)
  then have "customers_loop A (Some 1000) acc (fetched A s j) =
     customers_loop A (Some 1000) (acc @ concat (map (\<lambda>i. records (page A s i)) [j..<n])) (fetched A s n)"
    by simp
  also have "\<dots> = customers_loop A (Some 1000)
       ((acc @ concat (map (\<lambda>i. records (page A s i)) [j..<n])) @ records (page A s n))
       (fetched A s (Suc n))"
    using step assms(1,2) by (intro loop_step) auto
  finally show ?case using step(1) by simp
qed

lemma loop_returns_stop:
  assumes "customers_loop A m acc s' = Some y"
  shows "\<forall>s n. connected s \<and> 0 < n \<and> s' = fetched A s n \<and> m = Some 1000
           \<longrightarrow> (\<exists>k\<ge>n. \<not> continues (page A s k))"
  using assms
proof (induction rule: customers_loop.raw_induct [rotated 1, consumes 1])
  case (1 loop A m acc s' y)
  show ?case
  proof (intro allI impI, elim conjE)
    fix s n
    assume c: "connected s" and n: "0 < n" and s': "s' = fetched A s n" and m: "m = Some 1000"
    show "\<exists>k\<ge>n. \<not> continues (page A s k)"
    proof (cases "continues (page A s n)")
      case False
      then show ?thesis by blast
    next
      case True
      then obtain xs where p: "page A s n = Inr (xs, Some 1000)"
        by (auto simp: continues_def split: sum.splits)
      have q: "next_query (Some 1000) = page_query n"
        using n by (simp add: page_query_def)
      from 1(2) have "loop A (Some 1000) (acc @ xs) (fetched A s (Suc n)) = Some y"
        by (simp add: m s' q fetch_nth [OF c] p del: fetched.simps)
      from 1(1) [OF this, rule_format, of s "Suc n"]
      have "connected s \<Longrightarrow> \<exists>k\<ge>Suc n. \<not> continues (page A s k)"
        by simp
      with c obtain k where "k \<ge> Suc n" "\<not> continues (page A s k)"
        by auto
      then show ?thesis by (intro exI [of _ k]) simp
    qed
  qed
qed


lemma getAll_stop:
  assumes c: "connected s"
    and run: "\<forall>i<k. continues (page A s i)"
    and stop: "\<not> continues (page A s k)"
  shows "getAllCustomers A s =
           Some (outcome (concat (map (\<lambda>i. records (page A s i)) [0..<k])) (page A s k),
                 fetched A s (Suc k))"
proof (cases k)
  case 0
  have f: "fetch_page A first_query s = (page A s 0, fetched A s (Suc 0))"
    using fetch_nth [OF c, of A 0] by (simp add: page_query_def)
  show ?thesis
    using stop unfolding getAllCustomers_def f 0
    by (auto simp: continues_def outcome_def split: sum.splits simp del: fetched.simps)
next
  case (Suc k')
  have f: "fetch_page A first_query s = (page A s 0, fetched A s (Suc 0))"
    using fetch_nth [OF c, of A 0] by (simp add: page_query_def)
  from run Suc have "continues (page A s 0)" by simp
  then obtain xs where p: "page A s 0 = Inr (xs, Some 1000)"
    by (auto simp: continues_def split: sum.splits)
  have "getAllCustomers A s = customers_loop A (Some 1000) xs (fetched A s (Suc 0))"
    unfolding getAllCustomers_def f p by (simp del: fetched.simps)
  also have "\<dots> = customers_loop A (Some 1000)
       (xs @ concat (map (\<lambda>i. records (page A s i)) [Suc 0..<k])) (fetched A s k)"
    using run Suc by (intro loop_run [OF c]) auto
  also have "\<dots> = Some (outcome (xs @ concat (map (\<lambda>i. records (page A s i)) [Suc 0..<k])) (page A s k),
       fetched A s (Suc k))"
    using Suc stop by (intro loop_stop [OF c]) auto
  also have "xs @ concat (map (\<lambda>i. records (page A s i)) [Suc 0..<k]) =
        concat (map (\<lambda>i. records (page A s i)) [0..<k])"
    using Suc by (simp add: upt_conv_Cons p records_def del: upt_Suc)
  finally show ?thesis .
qed

lemma getAll_returns_stop:
  assumes c: "connected s" and r: "getAllCustomers A s = Some y"
  shows "\<exists>k. \<not> continues (page A s k)"
proof (cases "continues (page A s 0)")
  case False
  then show ?thesis by blast
next
  case True
  have f: "fetch_page A first_query s = (page A s 0, fetched A s (Suc 0))"
    using fetch_nth [OF c, of A 0] by (simp add: page_query_def)
  from True obtain xs where p: "page A s 0 = Inr (xs, Some 1000)"
    by (auto simp: continues_def split: sum.splits)
  from r have "customers_loop A (Some 1000) xs (fetched A s (Suc 0)) = Some y"
    unfolding getAllCustomers_def f p by (simp del: fetched.simps)
  from loop_returns_stop [OF this, rule_format, of s "Suc 0"] c show ?thesis
    by auto
qed

lemma getAll_terminates_iff:
  assumes "connected s"
  shows "getAllCustomers A s \<noteq> None \<longleftrightarrow> (\<exists>k. \<not> continues (page A s k))"
proof
  assume "getAllCustomers A s \<noteq> None"
  then obtain y where "getAllCustomers A s = Some y" by auto
  from getAll_returns_stop [OF assms this] show "\<exists>k. \<not> continues (page A s k)" .
next
  assume "\<exists>k. \<not> continues (page A s k)"
  then obtain k where k: "\<not> continues (page A s k)" "\<forall>i<k. continues (page A s i)"
    using exists_least_iff [of "\<lambda>k. \<not> continues (page A s k)"] by auto
  from getAll_stop [OF assms k(2) k(1)] show "getAllCustomers A s \<noteq> None" by simp
qed

lemma parseInt_undefined: "parseInt None = None"
  by code_simp

lemma parseInt_1000: "parseInt (Some (JNum 1000)) = Some 1000"
  by code_simp

lemma parseInt_1: "parseInt (Some (JNum 1)) = Some 1"
  by code_simp




lemma page_view_fields:
  assumes "page_fields (json r) = Some (xs, m)"
  shows "page_view (Resolve r) = Inr (xs, parseInt m)"
proof -
  from assms obtain f qr c where
    "get_prop (Some (json r)) ''fault'' = Inr f" "\<not> truthy f"
    "get_prop (Some (json r)) ''QueryResponse'' = Inr qr"
    "get_prop qr ''Customer'' = Inr c" "spread c = Inr xs"
    "get_prop qr ''maxResults'' = Inr m"
    by (auto simp: page_fields_def split: sum.splits if_splits)
  then show ?thesis
    by (simp add: page_view_def settle_def read_page_def)
qed

lemma page_fields_body: "page_fields (page_body xs m) = Some (xs, m)"
  by (cases m) (simp_all add: page_fields_def page_body_def)

lemma page_serve:
  "page (serve bodies) s i = page_view (Resolve \<lparr>status = 200, json = bodies (length (calls s) + i)\<rparr>)"
  by (simp add: page_def serve_def)

lemma connected_demo: "connected demo_app"
  by (simp add: connected_def demo_app_def demo_token_def)

lemma calls_fetched: "calls (fetched A s n) = calls s @ map (page_request A s) [0..<n]"
  by (induction n) simp_all

lemma url_page_request: "req_url (page_request A s i) = query_url A s @ page_query i"
  by (simp add: page_request_def build_request_def query_url_def query_args_def or_empty_def)

lemma page_request_eq:
  "page_request A s i =
     \<lparr>req_method = ''GET'', req_url = query_url A s @ page_query i,
      req_headers = None, req_body = None\<rparr>"
  by (simp add: page_request_def build_request_def query_url_def query_args_def or_empty_def)

lemma next_query_1000:
  "next_query (Some 1000) = ''?query=SELECT * FROM Customer STARTPOSITION 1000 MAXRESULTS 1000''"
  by code_simp

lemma query_url_demo:
  "query_url (serve bodies) demo_app = ''https://sandbox-quickbooks.api.intuit.com/v3/company/4620816365/query''"
  by (simp add: query_url_def serve_def demo_app_def demo_token_def template_def)

lemma length_full_page: "length full_page = 1000"
  by (simp add: full_page_def)

lemma calls_demo: "calls demo_app = []"
  by (simp add: demo_app_def)

lemma catch_clause_Error: "catch_clause (Error m) = Error m"
  by (simp add: catch_clause_def)

lemma getAll_never_returns:
  assumes "connected s" and "\<forall>k. continues (page A s k)"
  shows "getAllCustomers A s = None"
proof (rule ccontr)
  assume "getAllCustomers A s \<noteq> None"
  with getAll_terminates_iff [OF assms(1), of A] obtain k where "\<not> continues (page A s k)"
    by blast
  with assms(2) show False by blast
qed

lemma empty_array_returns_empty:
  assumes "connected s"
    and "\<forall>r. makeApiCall A (length (calls s)) r = Resolve r0"
    and "page_fields (json r0) = Some ([], m)"
    and "parseInt m \<noteq> Some 1000"
  shows "getAllCustomers A s = Some (Inr [], fetched A s (Suc 0))"
proof -
  from assms(2,3) have p: "page A s 0 = Inr ([], parseInt m)"
    by (simp add: page_def page_view_fields)
  with assms(4) have stop: "\<not> continues (page A s 0)"
    by (simp add: continues_def)
  from getAll_stop [OF assms(1) _ stop] show ?thesis
    by (simp add: p outcome_def del: fetched.simps)
qed

lemma interval_is_30_minutes: "interval_ms = 30 * 60 * 1000"
  by (simp add: interval_ms_def)

lemma failed_tick:
  assumes "refresh (refreshes s) (token s) = RefreshRejected e"
  shows "timer_tick refresh R s = s\<lparr>refreshes := Suc (refreshes s), unhandled := unhandled s @ [e]\<rparr>"
  using assms by (simp add: timer_tick_def refreshToken_def)

lemma startup_keeps_loaded_token:
  assumes "load_token R s = (s', True)"
    and "refresh (refreshes s') (token s') = RefreshRejected e"
  shows "token (startup refresh R s) = token s'"
  using assms by (simp add: startup_def failed_tick)

section \<open>The claims\<close>

text \<open>
  Claim C1 says that the start positions of successive page requests increase strictly.
  The code does not do that: the start position is \<^verbatim>\<open>${maxResults}\<close>, which is 1000
  whenever the loop body runs, so every request after the first asks for
  \<^verbatim>\<open>STARTPOSITION 1000\<close>. On a remote that answers every request with a full page (a tenant
  with 2000 customers or more) the function never returns and repeats that request; on
  three answers of 1000, 1000 and 1 records the second and third request are the same.
\<close>

theorem start_position_never_advances:
  "getAllCustomers (serve full_pages) demo_app = None
   \<and> map req_url (calls (fetched (serve full_pages) demo_app (Suc (Suc (Suc 0))))) =
       [''https://sandbox-quickbooks.api.intuit.com/v3/company/4620816365/query?query=SELECT * FROM Customer MAXRESULTS 1000'',
        ''https://sandbox-quickbooks.api.intuit.com/v3/company/4620816365/query?query=SELECT * FROM Customer STARTPOSITION 1000 MAXRESULTS 1000'',
        ''https://sandbox-quickbooks.api.intuit.com/v3/company/4620816365/query?query=SELECT * FROM Customer STARTPOSITION 1000 MAXRESULTS 1000'']
   \<and> map_option (\<lambda>(r, s'). (r, map req_url (calls s'))) (getAllCustomers (serve three_pages) demo_app) =
       Some (Inr (full_page @ full_page @ [customer]),
        [''https://sandbox-quickbooks.api.intuit.com/v3/company/4620816365/query?query=SELECT * FROM Customer MAXRESULTS 1000'',
         ''https://sandbox-quickbooks.api.intuit.com/v3/company/4620816365/query?query=SELECT * FROM Customer STARTPOSITION 1000 MAXRESULTS 1000'',
         ''https://sandbox-quickbooks.api.intuit.com/v3/company/4620816365/query?query=SELECT * FROM Customer STARTPOSITION 1000 MAXRESULTS 1000''])"
proof (intro conjI)
  have "page (serve full_pages) demo_app k = Inr (full_page, Some 1000)" for k
    by (simp add: page_serve full_pages_def page_view_fields page_fields_body parseInt_1000)
  then have "\<forall>k. continues (page (serve full_pages) demo_app k)"
    by (simp add: continues_def)
  from getAll_never_returns [OF connected_demo this]
  show "getAllCustomers (serve full_pages) demo_app = None" .
next
  show "map req_url (calls (fetched (serve full_pages) demo_app (Suc (Suc (Suc 0))))) =
       [''https://sandbox-quickbooks.api.intuit.com/v3/company/4620816365/query?query=SELECT * FROM Customer MAXRESULTS 1000'',
        ''https://sandbox-quickbooks.api.intuit.com/v3/company/4620816365/query?query=SELECT * FROM Customer STARTPOSITION 1000 MAXRESULTS 1000'',
        ''https://sandbox-quickbooks.api.intuit.com/v3/company/4620816365/query?query=SELECT * FROM Customer STARTPOSITION 1000 MAXRESULTS 1000'']"
    by (simp add: calls_fetched calls_demo url_page_request
          query_url_demo page_query_def first_query_def next_query_1000 upt_rec
          del: fetched.simps upt_Suc)
next
  have p0: "page (serve three_pages) demo_app 0 = Inr (full_page, Some 1000)"
    by (simp add: page_serve three_pages_def page_view_fields page_fields_body parseInt_1000 calls_demo)
  have p1: "page (serve three_pages) demo_app (Suc 0) = Inr (full_page, Some 1000)"
    by (simp add: page_serve three_pages_def page_view_fields page_fields_body parseInt_1000 calls_demo)
  have p2: "page (serve three_pages) demo_app (Suc (Suc 0)) = Inr ([customer], Some 1)"
    by (simp add: page_serve three_pages_def page_view_fields page_fields_body parseInt_1 calls_demo)
  have run: "\<forall>i<Suc (Suc 0). continues (page (serve three_pages) demo_app i)"
    by (simp add: p0 p1 continues_def less_Suc_eq)
  have stop: "\<not> continues (page (serve three_pages) demo_app (Suc (Suc 0)))"
    by (simp add: p2 continues_def)
  from getAll_stop [OF connected_demo run stop]
  show "map_option (\<lambda>(r, s'). (r, map req_url (calls s'))) (getAllCustomers (serve three_pages) demo_app) =
       Some (Inr (full_page @ full_page @ [customer]),
        [''https://sandbox-quickbooks.api.intuit.com/v3/company/4620816365/query?query=SELECT * FROM Customer MAXRESULTS 1000'',
         ''https://sandbox-quickbooks.api.intuit.com/v3/company/4620816365/query?query=SELECT * FROM Customer STARTPOSITION 1000 MAXRESULTS 1000'',
         ''https://sandbox-quickbooks.api.intuit.com/v3/company/4620816365/query?query=SELECT * FROM Customer STARTPOSITION 1000 MAXRESULTS 1000''])"
    by (simp add: p0 p1 p2 outcome_def records_def calls_fetched calls_demo url_page_request
          query_url_demo page_query_def first_query_def next_query_1000 upt_rec
          del: fetched.simps upt_Suc)
qed

text \<open>
  Claim C2, as the code has it. With a tenant bound, \<^verbatim>\<open>getAllCustomers\<close> returns or
  throws if and only if some page stops the loop: a page that throws (a rejected call, a
  fault, a body whose \<^verbatim>\<open>QueryResponse.Customer\<close> cannot be spread) or whose parsed
  \<^verbatim>\<open>maxResults\<close> is not 1000. It ends on the first such page: with the exception of that
  page, or else with the records of all pages up to it, in order. While every page keeps
  its parsed \<^verbatim>\<open>maxResults\<close> at 1000 the function never returns. When every page reports
  its record count in \<^verbatim>\<open>maxResults\<close> and has at most 1000 records, this is: it
  terminates if and only if some page has fewer than 1000 records.
\<close>

theorem getAllCustomers_terminates_iff:
  assumes "connected s"
  shows "(getAllCustomers A s \<noteq> None \<longleftrightarrow> (\<exists>k. \<not> continues (page A s k)))
       \<and> ((\<forall>i<k. continues (page A s i)) \<and> \<not> continues (page A s k) \<longrightarrow>
            getAllCustomers A s =
              Some (outcome (concat (map (\<lambda>i. records (page A s i)) [0..<k])) (page A s k),
                    fetched A s (Suc k)))
       \<and> ((\<forall>i. \<exists>xs. page A s i = Inr (xs, Some (int (length xs))) \<and> length xs \<le> 1000) \<longrightarrow>
            (getAllCustomers A s \<noteq> None \<longleftrightarrow> (\<exists>k. length (records (page A s k)) < 1000)))"
proof (intro conjI impI)
  show iff: "getAllCustomers A s \<noteq> None \<longleftrightarrow> (\<exists>k. \<not> continues (page A s k))"
    by (rule getAll_terminates_iff [OF assms])
  show "getAllCustomers A s =
              Some (outcome (concat (map (\<lambda>i. records (page A s i)) [0..<k])) (page A s k),
                    fetched A s (Suc k))"
    if "(\<forall>i<k. continues (page A s i)) \<and> \<not> continues (page A s k)"
    using that getAll_stop [OF assms, of k A] by blast
  show "getAllCustomers A s \<noteq> None \<longleftrightarrow> (\<exists>k. length (records (page A s k)) < 1000)"
    if wf: "\<forall>i. \<exists>xs. page A s i = Inr (xs, Some (int (length xs))) \<and> length xs \<le> 1000"
  proof -
    have "continues (page A s k) \<longleftrightarrow> \<not> length (records (page A s k)) < 1000" for k
    proof -
      from wf obtain xs where "page A s k = Inr (xs, Some (int (length xs)))" "length xs \<le> 1000"
        by blast
      then show ?thesis by (auto simp: continues_def records_def)
    qed
    with iff show ?thesis by simp
  qed
qed

text \<open>
  The theorem of C2 at two pages of 1000 records and 1 record.
\<close>

theorem getAllCustomers_terminates_iff_witness:
  "connected demo_app
   \<and> getAllCustomers (serve two_pages) demo_app =
       Some (Inr (full_page @ [customer]), fetched (serve two_pages) demo_app (Suc (Suc 0)))
   \<and> getAllCustomers (serve two_pages) demo_app \<noteq> None"
proof -
  have p0: "page (serve two_pages) demo_app 0 = Inr (full_page, Some 1000)"
    by (simp add: page_serve two_pages_def page_view_fields page_fields_body parseInt_1000 demo_app_def)
  have p1: "page (serve two_pages) demo_app (Suc 0) = Inr ([customer], Some 1)"
    by (simp add: page_serve two_pages_def page_view_fields page_fields_body parseInt_1 demo_app_def)
  have run: "\<forall>i<Suc 0. continues (page (serve two_pages) demo_app i)"
    by (simp add: p0 continues_def)
  have stop: "\<not> continues (page (serve two_pages) demo_app (Suc 0))"
    by (simp add: p1 continues_def)
  from getAllCustomers_terminates_iff [OF connected_demo, of "serve two_pages" "Suc 0"] run stop
  have "getAllCustomers (serve two_pages) demo_app \<noteq> None"
    and "getAllCustomers (serve two_pages) demo_app =
          Some (outcome (concat (map (\<lambda>i. records (page (serve two_pages) demo_app i)) [0..<Suc 0]))
                  (page (serve two_pages) demo_app (Suc 0)),
                fetched (serve two_pages) demo_app (Suc (Suc 0)))"
    by blast+
  then show ?thesis
    by (simp add: connected_demo p0 p1 outcome_def records_def del: fetched.simps)
qed

text \<open>
  Claim C2 as stated, with the record count of a page read as the number of records it
  carries, fails on a remote whose pages all carry 1000 records and no \<^verbatim>\<open>maxResults\<close>:
  the function returns after the first page although no page has fewer than 1000 records.
\<close>

theorem terminates_iff_short_page_counterexample:
  "\<not> (getAllCustomers (serve unreported_pages) demo_app \<noteq> None
        \<longleftrightarrow> (\<exists>k. length (records (page (serve unreported_pages) demo_app k)) < 1000))"
proof -
  have p: "page (serve unreported_pages) demo_app k = Inr (full_page, None)" for k
    by (simp add: page_serve unreported_pages_def page_view_fields page_fields_body parseInt_undefined)
  have "\<not> continues (page (serve unreported_pages) demo_app 0)"
    by (simp add: p continues_def)
  with getAll_terminates_iff [OF connected_demo, of "serve unreported_pages"]
  have "getAllCustomers (serve unreported_pages) demo_app \<noteq> None" by blast
  moreover have "\<not> (\<exists>k. length (records (page (serve unreported_pages) demo_app k)) < 1000)"
    by (simp add: p records_def length_full_page)
  ultimately show ?thesis by blast
qed

text \<open>
  Claim C3. When the first two answers of the remote are a page of 1000 records and a
  page of 1 record, each reporting its count in \<^verbatim>\<open>maxResults\<close>, \<^verbatim>\<open>getAllCustomers\<close>
  returns the 1001 records, the first page's first, and hands exactly two requests to
  \<^verbatim>\<open>makeApiCall\<close>: the first with no start position, the second with
  \<^verbatim>\<open>STARTPOSITION 1000\<close>.
\<close>

theorem two_pages_concatenated:
  assumes "connected s"
    and "\<forall>r. makeApiCall A (length (calls s)) r = Resolve r0"
    and "page_fields (json r0) = Some (p0, m0)" and "length p0 = 1000" and "reports_count p0 m0"
    and "\<forall>r. makeApiCall A (Suc (length (calls s))) r = Resolve r1"
    and "page_fields (json r1) = Some (p1, m1)" and "length p1 = 1" and "reports_count p1 m1"
  shows "getAllCustomers A s = Some (Inr (p0 @ p1), fetched A s (Suc (Suc 0)))
       \<and> length (p0 @ p1) = 1001
       \<and> calls (fetched A s (Suc (Suc 0))) =
           calls s @
           [\<lparr>req_method = ''GET'',
             req_url = query_url A s @ ''?query=SELECT * FROM Customer MAXRESULTS 1000'',
             req_headers = None, req_body = None\<rparr>,
            \<lparr>req_method = ''GET'',
             req_url = query_url A s @ ''?query=SELECT * FROM Customer STARTPOSITION 1000 MAXRESULTS 1000'',
             req_headers = None, req_body = None\<rparr>]"
proof -
  have p0: "page A s 0 = Inr (p0, Some 1000)"
    using assms(2,3,4,5) by (simp add: page_def page_view_fields reports_count_def)
  have p1: "page A s (Suc 0) = Inr (p1, Some 1)"
    using assms(6,7,8,9) by (simp add: page_def page_view_fields reports_count_def)
  have run: "\<forall>i<Suc 0. continues (page A s i)"
    by (simp add: p0 continues_def)
  have stop: "\<not> continues (page A s (Suc 0))"
    by (simp add: p1 continues_def)
  have "getAllCustomers A s = Some (Inr (p0 @ p1), fetched A s (Suc (Suc 0)))"
    using getAll_stop [OF assms(1) run stop]
    by (simp add: p0 p1 outcome_def records_def del: fetched.simps)
  moreover have "length (p0 @ p1) = 1001"
    using assms(4,8) by simp
  moreover have "calls (fetched A s (Suc (Suc 0))) =
           calls s @
           [\<lparr>req_method = ''GET'',
             req_url = query_url A s @ ''?query=SELECT * FROM Customer MAXRESULTS 1000'',
             req_headers = None, req_body = None\<rparr>,
            \<lparr>req_method = ''GET'',
             req_url = query_url A s @ ''?query=SELECT * FROM Customer STARTPOSITION 1000 MAXRESULTS 1000'',
             req_headers = None, req_body = None\<rparr>]"
    by (simp add: page_request_eq page_query_def first_query_def next_query_1000)
  ultimately show ?thesis by blast
qed

text \<open>
  The theorem of C3 at the sandbox tenant 4620816365.
\<close>

theorem two_pages_concatenated_witness:
  "getAllCustomers (serve two_pages) demo_app =
     Some (Inr (full_page @ [customer]), fetched (serve two_pages) demo_app (Suc (Suc 0)))
   \<and> length (full_page @ [customer]) = 1001
   \<and> map req_url (calls (fetched (serve two_pages) demo_app (Suc (Suc 0)))) =
       [''https://sandbox-quickbooks.api.intuit.com/v3/company/4620816365/query?query=SELECT * FROM Customer MAXRESULTS 1000'',
        ''https://sandbox-quickbooks.api.intuit.com/v3/company/4620816365/query?query=SELECT * FROM Customer STARTPOSITION 1000 MAXRESULTS 1000'']"
proof -
  let ?r0 = "\<lparr>status = 200, json = page_body full_page (Some (JNum 1000))\<rparr>"
  let ?r1 = "\<lparr>status = 200, json = page_body [customer] (Some (JNum 1))\<rparr>"
  have a0: "\<forall>r. makeApiCall (serve two_pages) (length (calls demo_app)) r = Resolve ?r0"
    by (simp add: serve_def two_pages_def calls_demo)
  have a1: "\<forall>r. makeApiCall (serve two_pages) (Suc (length (calls demo_app))) r = Resolve ?r1"
    by (simp add: serve_def two_pages_def calls_demo)
  have f0: "page_fields (json ?r0) = Some (full_page, Some (JNum 1000))"
    by (simp add: page_fields_body)
  have f1: "page_fields (json ?r1) = Some ([customer], Some (JNum 1))"
    by (simp add: page_fields_body)
  have c0: "reports_count full_page (Some (JNum 1000))"
    by (simp add: reports_count_def parseInt_1000 length_full_page)
  have c1: "reports_count [customer] (Some (JNum 1))"
    by (simp add: reports_count_def parseInt_1)
  have l1: "length [customer] = 1" by simp
  from two_pages_concatenated [OF connected_demo a0 f0 length_full_page c0 a1 f1 l1 c1]
  show ?thesis
    by (simp add: query_url_demo calls_demo del: fetched.simps)
qed

text \<open>
  Claim C4 says that an empty customer set gives an empty sequence and no error. A query
  response with no records has no \<^verbatim>\<open>Customer\<close> member, and line 125 spreads
  \<^verbatim>\<open>undefined\<close>: the function throws a \<^verbatim>\<open>TypeError\<close>. (With an explicit empty array
  it returns the empty sequence: lemma \<open>empty_array_returns_empty\<close>.)
\<close>

theorem empty_result_raises:
  "map_option fst (getAllCustomers (serve empty_result) demo_app) = Some (Inl TypeError)"
proof -
  have p: "page (serve empty_result) demo_app 0 = Inl TypeError"
    by (simp add: page_serve empty_result_def page_view_def settle_def read_page_def)
  then have stop: "\<not> continues (page (serve empty_result) demo_app 0)"
    by (simp add: continues_def)
  from getAll_stop [OF connected_demo _ stop] show ?thesis
    by (simp add: p outcome_def del: fetched.simps)
qed

text \<open>
  Claim C5. With a tenant bound and a response that has a parsed JSON body, whatever its
  HTTP status: if the body has a fault marker, \<^verbatim>\<open>quickbooks\<close> throws an \<^verbatim>\<open>Error\<close> whose
  message is the fault's \<^verbatim>\<open>error\<close> member and does not return the body; if it has none,
  \<^verbatim>\<open>quickbooks\<close> returns the body.
\<close>

theorem fault_marker_raises:
  assumes "connected s"
    and "makeApiCall A (length (calls s)) (build_request A a s) = Resolve \<lparr>status = st, json = b\<rparr>"
    and "b \<noteq> JNull"
  shows "(has_fault b \<longrightarrow> fst (quickbooks A a s) = Inl (Error (fault_message b)))
       \<and> (\<not> has_fault b \<longrightarrow> fst (quickbooks A a s) = Inr b)"
proof -
  from assms(3) obtain f where f: "get_prop (Some b) ''fault'' = Inr f"
    by (cases b) simp_all
  have q: "fst (quickbooks A a s) = settle (Resolve \<lparr>status = st, json = b\<rparr>)"
    by (simp add: quickbooks_connected [OF assms(1)] assms(2))
  show ?thesis
  proof (cases "truthy f")
    case True
    then obtain m where m: "get_prop f ''error'' = Inr m"
      by (cases f rule: truthy.cases) simp_all
    from True show ?thesis
      by (simp add: q settle_def has_fault_def fault_message_def f m catch_clause_Error)
  next
    case False
    then show ?thesis
      by (simp add: q settle_def has_fault_def f)
  qed
qed

text \<open>
  The theorem of C5 at a fault body and at a body without fault, both with status 200.
\<close>

theorem fault_marker_raises_witness:
  "fst (quickbooks (serve (\<lambda>n. fault_body)) company_args demo_app) = Inl (Error ''Invalid query'')
   \<and> fst (quickbooks (serve (\<lambda>n. customer)) company_args demo_app) = Inr customer"
proof -
  have c1: "makeApiCall (serve (\<lambda>n. fault_body)) (length (calls demo_app))
              (build_request (serve (\<lambda>n. fault_body)) company_args demo_app)
            = Resolve \<lparr>status = 200, json = fault_body\<rparr>"
    by (simp add: serve_def)
  have c2: "makeApiCall (serve (\<lambda>n. customer)) (length (calls demo_app))
              (build_request (serve (\<lambda>n. customer)) company_args demo_app)
            = Resolve \<lparr>status = 200, json = customer\<rparr>"
    by (simp add: serve_def)
  have n1: "fault_body \<noteq> JNull" by (simp add: fault_body_def)
  have n2: "customer \<noteq> JNull" by (simp add: customer_def)
  have h1: "has_fault fault_body" by (simp add: has_fault_def fault_body_def)
  have h2: "\<not> has_fault customer" by (simp add: has_fault_def customer_def)
  have m: "fault_message fault_body = ''Invalid query''"
    by (simp add: fault_message_def fault_body_def error_message_def)
  from fault_marker_raises [OF connected_demo c1 n1] fault_marker_raises [OF connected_demo c2 n2]
  show ?thesis
    using h1 h2 m by simp
qed

text \<open>
  Claim C6 says that a failed refresh of the timer is logged and absorbed. The timer's
  callback neither catches nor logs: after a tick whose refresh is rejected, and after a
  second one, the logger and \<^verbatim>\<open>console.error\<close> have received nothing, and each rejection
  is left as a rejection that nothing handles.
\<close>

theorem failed_ticks_are_not_logged:
  "log (timer_tick failing_refresh demo_runtime demo_app) = []
   \<and> console (timer_tick failing_refresh demo_runtime demo_app) = []
   \<and> unhandled (timer_tick failing_refresh demo_runtime demo_app) =
       [Thrown (JObj [(''error'', JStr ''invalid_grant'')])]
   \<and> log (timer_tick failing_refresh demo_runtime (timer_tick failing_refresh demo_runtime demo_app)) = []
   \<and> unhandled (timer_tick failing_refresh demo_runtime (timer_tick failing_refresh demo_runtime demo_app)) =
       [Thrown (JObj [(''error'', JStr ''invalid_grant'')]), Thrown (JObj [(''error'', JStr ''invalid_grant'')])]"
  by (simp add: timer_tick_def refreshToken_def failing_refresh_def demo_app_def)

text \<open>
  Claim C7 says that \<^verbatim>\<open>GET /\<close> reports whether a credential is held. \<^verbatim>\<open>qbStatus\<close>
  answers with constants: with a token held and a tenant bound it still reports
  \<^verbatim>\<open>appAuthorized: false\<close> and \<^verbatim>\<open>oauthToken: null\<close>.
\<close>

theorem status_reports_unauthorized:
  "connected demo_app
   \<and> qbStatus demo_app =
       Reply 200 (Json (JObj [(''appAuthorized'', JBool False), (''oauthToken'', JNull)]))"
  by (simp add: connected_demo qbStatus_def)

text \<open>
  Claim C8. A token saved by \<^verbatim>\<open>setAccessToken\<close>, once its write has finished, is the
  token that the load at start-up hands to the OAuth client in a process that finds the
  same files, provided \<^verbatim>\<open>JSON.parse\<close> gives back the token from the text that
  \<^verbatim>\<open>JSON.stringify\<close> made of it and no earlier write was still pending.
\<close>

theorem credential_round_trip:
  assumes "JSON_parse R (JSON_stringify R tok) = Some tok"
    and "pending s = []"
    and "files s' = files (writeFile_settles Written (setAccessToken R tok s))"
  shows "token (fst (load_token R s')) = tok"
proof -
  have "files s' (token_path R) = Some (JSON_stringify R tok)"
    by (simp add: assms(2,3) writeFile_settles_def setAccessToken_def)
  then show ?thesis
    by (simp add: load_token_def assms(1) setAccessToken_def)
qed

text \<open>
  The theorem of C8 at \<open>demo_token\<close>, reloaded by a process that starts with an empty
  token.
\<close>

theorem credential_round_trip_witness:
  "token (fst (load_token demo_runtime
      (demo_app\<lparr>token := JObj [],
                files := files (writeFile_settles Written (setAccessToken demo_runtime demo_token demo_app))\<rparr>)))
   = demo_token"
proof -
  have a: "JSON_parse demo_runtime (JSON_stringify demo_runtime demo_token) = Some demo_token"
    by (simp add: demo_runtime_def)
  have b: "pending demo_app = []"
    by (simp add: demo_app_def)
  have c: "files (demo_app\<lparr>token := JObj [],
                files := files (writeFile_settles Written (setAccessToken demo_runtime demo_token demo_app))\<rparr>)
           = files (writeFile_settles Written (setAccessToken demo_runtime demo_token demo_app))"
    by simp
  from credential_round_trip [OF a b c] show ?thesis .
qed

text \<open>
  Claim C9. Every registration except \<^verbatim>\<open>/callback\<close> has \<^verbatim>\<open>decodeUserToken\<close> before
  its handler, and a request to such a path that carries no token is answered with 401
  and the text \<^verbatim>\<open>Unauthorized\<close>, its handler not being called; a request to
  \<^verbatim>\<open>/callback\<close> reaches \<^verbatim>\<open>intuitCallback\<close> unchanged, whatever its headers.
\<close>

theorem guard_before_every_route_but_callback:
  "((p, mws, h) \<in> set routes \<and> p \<noteq> ''/callback'' \<longrightarrow> mws = [DecodeUserToken])
   \<and> ((p, mws, h) \<in> set routes \<and> p \<noteq> ''/callback'' \<and> path req = p \<and> no_token req \<longrightarrow>
          dispatch verify req = Replied 401 (Text ''Unauthorized''))
   \<and> (path req = ''/callback'' \<longrightarrow> dispatch verify req = Handled IntuitCallback req)"
proof (intro conjI impI)
  assume "(p, mws, h) \<in> set routes \<and> p \<noteq> ''/callback''"
  then show "mws = [DecodeUserToken]"
    by (auto simp: routes_def)
next
  assume a: "(p, mws, h) \<in> set routes \<and> p \<noteq> ''/callback'' \<and> path req = p \<and> no_token req"
  then have d: "decodeUserToken verify req = Respond 401 (Text ''Unauthorized'')"
    by (auto simp: decodeUserToken_def no_token_def)
  from a consider "path req = ''/''" | "path req = ''/authorize''" | "path req = ''/token/refresh''"
    | "path req = ''/token/valid''" | "path req = ''/company''" | "path req = ''/customers''"
    | "path req = ''/customers/generate''"
    by (auto simp: routes_def)
  then show "dispatch verify req = Replied 401 (Text ''Unauthorized'')"
    by cases (simp_all add: dispatch_def routes_def d)
next
  assume "path req = ''/callback''"
  then show "dispatch verify req = Handled IntuitCallback req"
    by (simp add: dispatch_def routes_def)
qed

text \<open>
  The theorem of C9 at requests without an \<^verbatim>\<open>authorization\<close> header.
\<close>

theorem guard_before_every_route_but_callback_witness:
  "dispatch verify_none (anonymous_request ''/customers'') = Replied 401 (Text ''Unauthorized'')
   \<and> dispatch verify_none (anonymous_request ''/callback'') = Handled IntuitCallback (anonymous_request ''/callback'')"
proof -
  have m: "(''/customers'', [DecodeUserToken], GetCustomers) \<in> set routes \<and> ''/customers'' \<noteq> ''/callback''
        \<and> path (anonymous_request ''/customers'') = ''/customers'' \<and> no_token (anonymous_request ''/customers'')"
    by (simp add: routes_def anonymous_request_def no_token_def bearer_token_def)
  have c: "path (anonymous_request ''/callback'') = ''/callback''"
    by (simp add: anonymous_request_def)
  from guard_before_every_route_but_callback [of "''/customers''" "[DecodeUserToken]" GetCustomers
          "anonymous_request ''/customers''" verify_none] m
       guard_before_every_route_but_callback [of "''/callback''" "[]" IntuitCallback
          "anonymous_request ''/callback''" verify_none] c
  show ?thesis by blast
qed




end
